theory Spec2Isabelle
  imports Main
begin

section \<open>Errors\<close>

text \<open>
  A Go error value is either a plain error carrying its message, or the result of
  \<^verbatim>\<open>fmt.Errorf("<context>: %w", err)\<close>, which keeps the wrapped error reachable.
\<close>

datatype error = Sentinel string | Errorf string error

definition ErrNotExist :: error where
  "ErrNotExist = Sentinel ''file does not exist''"

text \<open>\<^verbatim>\<open>errors.Is\<close> walks the chain of wrapped errors looking for the target.\<close>

fun errors_Is :: "error \<Rightarrow> error \<Rightarrow> bool" where
  "errors_Is (Sentinel s) target = (Sentinel s = target)"
| "errors_Is (Errorf c e) target = (Errorf c e = target \<or> errors_Is e target)"

text \<open>The message of an error, as its \<^verbatim>\<open>Error()\<close> method renders it.\<close>

fun Error :: "error \<Rightarrow> string" where
  "Error (Sentinel s) = s"
| "Error (Errorf c e) = c @ '': '' @ Error e"

section \<open>The instance and its collaborators\<close>

text \<open>
  A connection pool is made from its connection string; a database handle is one of the
  connections the pool gave out. The mutex of the instance has no field here: its
  operations are events of the history.
\<close>

datatype ConnectionPool = NewConnectionPool string

datatype DB = DB nat

record pgBouncerInstance =
  paused :: bool
  pool :: ConnectionPool

text \<open>
  Everything the instance does that is visible outside a call is recorded, in order,
  in a history of events: the requests made to the connection pool and to the
  database handle with their outcomes (\<open>None\<close> is success), the operations on the
  read-write mutex, and the assignments to the field \<open>paused\<close>.
\<close>

datatype event =
    EvConnection string "error option"
  | EvExec string "error option"
  | EvRLock
  | EvRUnlock
  | EvLock
  | EvUnlock
  | EvStore bool

text \<open>
  The connection pool and the database handle belong to other packages. Their replies
  are given by an environment: any function of the history so far and the arguments
  of the request. \<open>pool_Connection\<close> is \<^verbatim>\<open>p.pool.Connection(name)\<close> and \<open>db_Exec\<close> is
  \<^verbatim>\<open>db.Exec(query)\<close>, of which only the error is kept; both record the request.
\<close>

record env =
  Connection :: "event list \<Rightarrow> ConnectionPool \<Rightarrow> string \<Rightarrow> error + DB"
  Exec :: "event list \<Rightarrow> DB \<Rightarrow> string \<Rightarrow> error option"

definition pool_Connection ::
  "env \<Rightarrow> ConnectionPool \<Rightarrow> string \<Rightarrow> event list \<Rightarrow> (error + DB) \<times> event list" where
  "pool_Connection w pl name h =
     (case Connection w h pl name of
        Inl err \<Rightarrow> (Inl err, h @ [EvConnection name (Some err)])
      | Inr db \<Rightarrow> (Inr db, h @ [EvConnection name None]))"

definition db_Exec :: "env \<Rightarrow> DB \<Rightarrow> string \<Rightarrow> event list \<Rightarrow> error option \<times> event list" where
  "db_Exec w db query h = (Exec w h db query, h @ [EvExec query (Exec w h db query)])"

section \<open>Retrying\<close>

text \<open>
  Modelled from the spec: \<^verbatim>\<open>retry.OnError\<close> and \<^verbatim>\<open>retry.DefaultBackoff\<close> come from
  the client library and are not among the sources. The spec describes a bounded-attempt
  loop with a predicate telling which errors are retried, which gives up and surfaces the
  last error once the budget is exhausted. The budget (the number of steps of the backoff)
  is the first argument; the delays between attempts are not modelled. An error the
  predicate rejects is returned at once. The last retried error starts out empty, so a
  budget of zero runs nothing and reports no error.
\<close>

fun OnError ::
  "nat \<Rightarrow> (error \<Rightarrow> bool) \<Rightarrow> (event list \<Rightarrow> error option \<times> event list) \<Rightarrow>
   error option \<Rightarrow> event list \<Rightarrow> error option \<times> event list" where
  "OnError 0 retriable fn lastErr h = (lastErr, h)"
| "OnError (Suc n) retriable fn lastErr h =
     (case fn h of
        (None, h') \<Rightarrow> (None, h')
      | (Some err, h') \<Rightarrow>
          if retriable err then OnError n retriable fn (Some err) h' else (Some err, h'))"

section \<open>The operations\<close>

text \<open>Decimal rendering of a number, as \<^verbatim>\<open>%v\<close> prints an integer constant.\<close>

fun digits :: "nat \<Rightarrow> string" where
  "digits n =
     (if n < 10 then [char_of (48 + n)] else digits (n div 10) @ [char_of (48 + n mod 10)])"

declare digits.simps [simp del]

text \<open>
  The socket directory, the port and the administrative user are constants of another
  package; they are arguments here.
\<close>

definition NewPgBouncerInstance :: "string \<Rightarrow> nat \<Rightarrow> string \<Rightarrow> pgBouncerInstance" where
  "NewPgBouncerInstance PgBouncerSocketDir PgBouncerPort PgBouncerAdminUser =
     \<lparr>paused = False,
      pool = NewConnectionPool
        (''host='' @ PgBouncerSocketDir @ '' port='' @ digits PgBouncerPort @
         '' user='' @ PgBouncerAdminUser @ '' sslmode=disable'')\<rparr>"

text \<open>
  \<open>Paused\<close> returns the flag under the read lock, which the deferred unlock releases on
  return.
\<close>

definition Paused :: "pgBouncerInstance \<Rightarrow> event list \<Rightarrow> bool \<times> event list" where
  "Paused p h = (paused p, h @ [EvRLock, EvRUnlock])"

text \<open>
  The predicate \<open>Pause\<close> passes to the retry loop:
  \<^verbatim>\<open>if errors.Is(err, os.ErrNotExist) { return true }; return true\<close>.
\<close>

definition Pause_retriable :: "error \<Rightarrow> bool" where
  "Pause_retriable err = (if errors_Is err ErrNotExist then True else True)"

text \<open>
  \<open>Pause\<close>: first connect to the administrative database; a failure is returned wrapped.
  Second, execute \<^verbatim>\<open>PAUSE\<close> under the retry loop, whose budget is the argument \<open>steps\<close>;
  an error of the loop is returned as it is. Third, under the write lock, set the flag.
\<close>

definition Pause ::
  "nat \<Rightarrow> env \<Rightarrow> pgBouncerInstance \<Rightarrow> event list \<Rightarrow>
   error option \<times> pgBouncerInstance \<times> event list" where
  "Pause steps w p h =
     (case pool_Connection w (pool p) ''pgbouncer'' h of
        (Inl err, h1) \<Rightarrow>
          (Some (Errorf ''while connecting to pgbouncer database locally'' err), p, h1)
      | (Inr db, h1) \<Rightarrow>
          (case OnError steps Pause_retriable (db_Exec w db ''PAUSE'') None h1 of
             (Some err, h2) \<Rightarrow> (Some err, p, h2)
           | (None, h2) \<Rightarrow>
               (None, p\<lparr>paused := True\<rparr>, h2 @ [EvLock, EvStore True, EvUnlock])))"

text \<open>
  \<open>Resume\<close>: first connect, as \<open>Pause\<close> does. Second, execute \<^verbatim>\<open>RESUME\<close> once; a failure
  is returned wrapped. Third, under the write lock, clear the flag.
\<close>

definition Resume ::
  "env \<Rightarrow> pgBouncerInstance \<Rightarrow> event list \<Rightarrow>
   error option \<times> pgBouncerInstance \<times> event list" where
  "Resume w p h =
     (case pool_Connection w (pool p) ''pgbouncer'' h of
        (Inl err, h1) \<Rightarrow>
          (Some (Errorf ''while connecting to pgbouncer database locally'' err), p, h1)
      | (Inr db, h1) \<Rightarrow>
          (case db_Exec w db ''RESUME'' h1 of
             (Some err, h2) \<Rightarrow> (Some (Errorf ''while resuming instance'' err), p, h2)
           | (None, h2) \<Rightarrow>
               (None, p\<lparr>paused := False\<rparr>, h2 @ [EvLock, EvStore False, EvUnlock])))"

section \<open>Sequences of calls\<close>

text \<open>
  A caller of the interface issues calls one after the other on the same instance; each
  call returns a boolean (\<open>Paused\<close>) or an error that may be nil (\<open>Pause\<close>, \<open>Resume\<close>).
\<close>

datatype op = OpPaused | OpPause | OpResume

datatype ret = RetBool bool | RetError "error option"

fun call ::
  "nat \<Rightarrow> env \<Rightarrow> op \<Rightarrow> pgBouncerInstance \<Rightarrow> event list \<Rightarrow>
   ret \<times> pgBouncerInstance \<times> event list" where
  "call steps w OpPaused p h = (case Paused p h of (b, h') \<Rightarrow> (RetBool b, p, h'))"
| "call steps w OpPause p h = (case Pause steps w p h of (r, p', h') \<Rightarrow> (RetError r, p', h'))"
| "call steps w OpResume p h = (case Resume w p h of (r, p', h') \<Rightarrow> (RetError r, p', h'))"

fun run ::
  "nat \<Rightarrow> env \<Rightarrow> op list \<Rightarrow> pgBouncerInstance \<Rightarrow> event list \<Rightarrow>
   ret list \<times> pgBouncerInstance \<times> event list" where
  "run steps w [] p h = ([], p, h)"
| "run steps w (c # cs) p h =
     (case call steps w c p h of
        (r, p1, h1) \<Rightarrow> (case run steps w cs p1 h1 of (rs, p2, h2) \<Rightarrow> (r # rs, p2, h2)))"

text \<open>
  The command executions recorded in a history, in order, each with its outcome, and the
  names of the databases a connection was requested to.
\<close>

fun executions :: "event list \<Rightarrow> (string \<times> error option) list" where
  "executions [] = []"
| "executions (EvExec q r # es) = (q, r) # executions es"
| "executions (e # es) = executions es"

fun connections :: "event list \<Rightarrow> string list" where
  "connections [] = []"
| "connections (EvConnection name r # es) = name # connections es"
| "connections (e # es) = connections es"

text \<open>
  A scripted environment answers the n-th connection request and the n-th command
  execution from two lists of outcomes, and succeeds once a list is used up.
\<close>

definition reply :: "error option list \<Rightarrow> nat \<Rightarrow> error option" where
  "reply xs n = (if n < length xs then xs ! n else None)"

definition scripted :: "error option list \<Rightarrow> error option list \<Rightarrow> env" where
  "scripted conns execs =
     \<lparr>Connection = (\<lambda>h pl name.
        case reply conns (length (connections h)) of
          None \<Rightarrow> Inr (DB (length (connections h)))
        | Some err \<Rightarrow> Inl err),
      Exec = (\<lambda>h db query. reply execs (length (executions h)))\<rparr>"

section \<open>The guard\<close>

text \<open>
  Modelled from the spec: the guard of the instance is a \<^verbatim>\<open>sync.RWMutex\<close>, which is not among
  the sources. The spec describes a mutual-exclusion primitive supporting concurrent
  readers and an exclusive single writer. Its state is whether a writer holds it and how
  many readers do. An operation that cannot go through now (it would have to wait, or it
  releases what is not held) has no next state.
\<close>

record RWMutex =
  writer :: bool
  readers :: nat

definition unlocked :: RWMutex where
  "unlocked = \<lparr>writer = False, readers = 0\<rparr>"

fun mu_event :: "event \<Rightarrow> RWMutex \<Rightarrow> RWMutex option" where
  "mu_event EvRLock m = (if writer m then None else Some (m\<lparr>readers := Suc (readers m)\<rparr>))"
| "mu_event EvRUnlock m =
     (if readers m = 0 then None else Some (m\<lparr>readers := readers m - 1\<rparr>))"
| "mu_event EvLock m =
     (if writer m \<or> 0 < readers m then None else Some (m\<lparr>writer := True\<rparr>))"
| "mu_event EvUnlock m = (if writer m then Some (m\<lparr>writer := False\<rparr>) else None)"
| "mu_event e m = Some m"

text \<open>
  The state of the guard after a sequence of events, when each of them can go through in
  its turn.
\<close>

fun mu_events :: "event list \<Rightarrow> RWMutex \<Rightarrow> RWMutex option" where
  "mu_events [] m = Some m"
| "mu_events (e # es) m = (case mu_event e m of None \<Rightarrow> None | Some m' \<Rightarrow> mu_events es m')"

text \<open>The events that talk to the proxy.\<close>

fun network :: "event \<Rightarrow> bool" where
  "network (EvConnection name r) = True"
| "network (EvExec q r) = True"
| "network e = False"

text \<open>Sample data for the concrete runs below.\<close>

abbreviation sample :: pgBouncerInstance where
  "sample \<equiv> NewPgBouncerInstance ''/controller/run'' 6432 ''pgbouncer''"

abbreviation refused :: error where
  "refused \<equiv> Sentinel ''connection refused''"

abbreviation not_ready :: error where
  "not_ready \<equiv> Sentinel ''no such file or directory''"

abbreviation closed :: error where
  "closed \<equiv> Sentinel ''server closed the connection''"

section \<open>Auxiliary facts\<close>

lemma Pause_retriable_True: "Pause_retriable err"
  by (simp add: Pause_retriable_def)

lemma db_Exec_eq: "db_Exec w db q h = (Exec w h db q, h @ [EvExec q (Exec w h db q)])"
  by (simp add: db_Exec_def)

lemma OnError_Exec:
  "(\<And>e. retriable e) \<Longrightarrow> OnError n retriable (db_Exec w db q) l h = (r, h') \<Longrightarrow>
   \<exists>outs. h' = h @ map (EvExec q) outs \<and> length outs \<le> n \<and>
     None \<notin> set (butlast outs) \<and>
     r = (if outs = [] then l else last outs) \<and>
     (r \<noteq> None \<and> outs \<noteq> [] \<longrightarrow> length outs = n) \<and> (outs = [] \<longrightarrow> n = 0)"
proof (induction n arbitrary: l h r h')
  case 0
  then show ?case by simp
next
  case (Suc n)
  show ?case
  proof (cases "Exec w h db q")
    case None
    then have "db_Exec w db q h = (None, h @ [EvExec q None])"
      by (simp add: db_Exec_eq)
    with Suc.prems have "r = None" "h' = h @ [EvExec q None]"
      by simp_all
    then show ?thesis
      by (intro exI[of _ "[None]"]) simp
  next
    case (Some e)
    then have "db_Exec w db q h = (Some e, h @ [EvExec q (Some e)])"
      by (simp add: db_Exec_eq)
    then have step: "OnError (Suc n) retriable (db_Exec w db q) l h =
        OnError n retriable (db_Exec w db q) (Some e) (h @ [EvExec q (Some e)])"
      by (simp add: Suc.prems(1))
    from Suc.IH[OF Suc.prems(1) Suc.prems(2)[unfolded step]]
    obtain outs where o:
      "h' = (h @ [EvExec q (Some e)]) @ map (EvExec q) outs" "length outs \<le> n"
      "None \<notin> set (butlast outs)" "r = (if outs = [] then Some e else last outs)"
      "(r \<noteq> None \<and> outs \<noteq> [] \<longrightarrow> length outs = n)" "(outs = [] \<longrightarrow> n = 0)"
      by blast
    show ?thesis
      using o by (intro exI[of _ "Some e # outs"]) auto
  qed
qed

lemma executions_append: "executions (xs @ ys) = executions xs @ executions ys"
  by (induction xs rule: executions.induct) simp_all

lemma executions_map: "executions (map (EvExec q) outs) = map (Pair q) outs"
  by (induction outs) simp_all

lemma Pause_conn_fail:
  assumes "Connection w h (pool p) ''pgbouncer'' = Inl e"
  shows "Pause steps w p h =
    (Some (Errorf ''while connecting to pgbouncer database locally'' e), p,
     h @ [EvConnection ''pgbouncer'' (Some e)])"
  using assms by (simp add: Pause_def pool_Connection_def)

lemma Pause_conn_ok:
  assumes "Connection w h (pool p) ''pgbouncer'' = Inr db"
  shows "\<exists>outs. length outs \<le> steps \<and> None \<notin> set (butlast outs) \<and> (outs = [] \<longrightarrow> steps = 0) \<and>
    ((outs \<noteq> [] \<and> last outs \<noteq> None) \<and> length outs = steps \<and>
       Pause steps w p h =
         (last outs, p, h @ EvConnection ''pgbouncer'' None # map (EvExec ''PAUSE'') outs)
     \<or> (outs = [] \<or> last outs = None) \<and>
       Pause steps w p h =
         (None, p\<lparr>paused := True\<rparr>,
          h @ EvConnection ''pgbouncer'' None # map (EvExec ''PAUSE'') outs @
            [EvLock, EvStore True, EvUnlock]))"
proof -
  let ?h1 = "h @ [EvConnection ''pgbouncer'' None]"
  obtain r h2 where oe: "OnError steps Pause_retriable (db_Exec w db ''PAUSE'') None ?h1 = (r, h2)"
    by (cases "OnError steps Pause_retriable (db_Exec w db ''PAUSE'') None ?h1")
  from OnError_Exec[OF Pause_retriable_True oe] obtain outs where o:
    "h2 = ?h1 @ map (EvExec ''PAUSE'') outs" "length outs \<le> steps"
    "None \<notin> set (butlast outs)" "r = (if outs = [] then None else last outs)"
    "(r \<noteq> None \<and> outs \<noteq> [] \<longrightarrow> length outs = steps)" "(outs = [] \<longrightarrow> steps = 0)"
    by blast
  have P: "Pause steps w p h =
      (case r of Some err \<Rightarrow> (Some err, p, h2)
       | None \<Rightarrow> (None, p\<lparr>paused := True\<rparr>, h2 @ [EvLock, EvStore True, EvUnlock]))"
    using assms oe by (simp add: Pause_def pool_Connection_def)
  show ?thesis
  proof (cases r)
    case None
    with o(4) have l: "outs = [] \<or> last outs = None"
      by (simp split: if_splits)
    from P None o(1) have "Pause steps w p h =
        (None, p\<lparr>paused := True\<rparr>,
         h @ EvConnection ''pgbouncer'' None # map (EvExec ''PAUSE'') outs @
           [EvLock, EvStore True, EvUnlock])"
      by simp
    with l o(2,3,6) show ?thesis
      by blast
  next
    case (Some e)
    with o(4) have l: "outs \<noteq> []" "last outs = Some e"
      by (simp_all split: if_splits)
    with o(5) Some have n: "length outs = steps"
      by simp
    from P Some o(1) have "Pause steps w p h =
        (Some e, p, h @ EvConnection ''pgbouncer'' None # map (EvExec ''PAUSE'') outs)"
      by simp
    with l have "(outs \<noteq> [] \<and> last outs \<noteq> None) \<and>
       Pause steps w p h =
         (last outs, p, h @ EvConnection ''pgbouncer'' None # map (EvExec ''PAUSE'') outs)"
      by simp
    with n o(2,3,6) show ?thesis
      by blast
  qed
qed

lemma Resume_eq:
  "Resume w p h =
     (case Connection w h (pool p) ''pgbouncer'' of
        Inl e \<Rightarrow> (Some (Errorf ''while connecting to pgbouncer database locally'' e), p,
                  h @ [EvConnection ''pgbouncer'' (Some e)])
      | Inr db \<Rightarrow>
         (case Exec w (h @ [EvConnection ''pgbouncer'' None]) db ''RESUME'' of
            Some e \<Rightarrow> (Some (Errorf ''while resuming instance'' e), p,
                       h @ [EvConnection ''pgbouncer'' None, EvExec ''RESUME'' (Some e)])
          | None \<Rightarrow> (None, p\<lparr>paused := False\<rparr>,
                     h @ [EvConnection ''pgbouncer'' None, EvExec ''RESUME'' None,
                          EvLock, EvStore False, EvUnlock])))"
  by (simp add: Resume_def pool_Connection_def db_Exec_eq split: sum.splits option.splits)

lemma scripted_Connection:
  "Connection (scripted conns execs) h pl name =
     (case reply conns (length (connections h)) of
        None \<Rightarrow> Inr (DB (length (connections h))) | Some err \<Rightarrow> Inl err)"
  by (simp add: scripted_def)

lemma scripted_Exec: "Exec (scripted conns execs) h db q = reply execs (length (executions h))"
  by (simp add: scripted_def)

lemma Pause_result:
  "Pause steps w p h = (r, p', h') \<Longrightarrow> p' = (if r = None then p\<lparr>paused := True\<rparr> else p)"
  by (auto simp: Pause_def split: prod.splits sum.splits option.splits)

lemma Resume_result:
  "Resume w p h = (r, p', h') \<Longrightarrow> p' = (if r = None then p\<lparr>paused := False\<rparr> else p)"
  by (auto simp: Resume_eq split: sum.splits option.splits)

lemma call_paused:
  assumes "call steps w c p h = (r, p', h')"
  shows "paused p' =
      (if (c, r) = (OpPause, RetError None) then True
       else if (c, r) = (OpResume, RetError None) then False else paused p)"
    and "c = OpPaused \<Longrightarrow> r = RetBool (paused p)"
proof -
  show "paused p' =
      (if (c, r) = (OpPause, RetError None) then True
       else if (c, r) = (OpResume, RetError None) then False else paused p)"
  proof (cases c)
    case OpPaused
    with assms show ?thesis by (auto simp: Paused_def)
  next
    case OpPause
    with assms show ?thesis
      by (auto split: prod.splits dest: Pause_result)
  next
    case OpResume
    with assms show ?thesis
      by (auto split: prod.splits dest: Resume_result)
  qed
  show "c = OpPaused \<Longrightarrow> r = RetBool (paused p)"
    using assms by (auto simp: Paused_def)
qed

lemma run_keeps_flag:
  assumes "run steps w cs p h = (rs, p2, h2)"
    and "paused p = b"
    and "(if b then OpResume else OpPause, RetError None) \<notin> set (zip cs rs)"
  shows "paused p2 = b \<and> (OpPaused, RetBool (\<not> b)) \<notin> set (zip cs rs)"
  using assms
proof (induction cs arbitrary: p h rs)
  case Nil
  then show ?case by simp
next
  case (Cons c cs)
  obtain r p1 h1 where c: "call steps w c p h = (r, p1, h1)"
    by (cases "call steps w c p h")
  from Cons.prems(1) c obtain rs' where r: "run steps w cs p1 h1 = (rs', p2, h2)"
    and eq: "rs = r # rs'"
    by (auto split: prod.splits)
  from Cons.prems(3) eq have no: "(c, r) \<noteq> (if b then OpResume else OpPause, RetError None)"
    "(if b then OpResume else OpPause, RetError None) \<notin> set (zip cs rs')"
    by auto
  from call_paused(1)[OF c] no(1) Cons.prems(2) have p1: "paused p1 = b"
    by (auto split: if_splits)
  from Cons.IH[OF r p1 no(2)] have ih: "paused p2 = b" "(OpPaused, RetBool (\<not> b)) \<notin> set (zip cs rs')"
    by simp_all
  have "(c, r) \<noteq> (OpPaused, RetBool (\<not> b))"
    using call_paused(2)[OF c] Cons.prems(2) by auto
  with ih eq show ?case by auto
qed

lemma connections_append: "connections (xs @ ys) = connections xs @ connections ys"
  by (induction xs rule: connections.induct) simp_all

lemma connections_map: "connections (map (EvExec q) outs) = []"
  by (induction outs) simp_all

lemma Pause_conn_ok_history:
  assumes "Connection w h (pool p) ''pgbouncer'' = Inr db"
  shows "\<exists>outs fin. (outs = [] \<longrightarrow> steps = 0) \<and> set fin \<subseteq> {EvLock, EvStore True, EvUnlock} \<and>
    snd (snd (Pause steps w p h)) =
      h @ EvConnection ''pgbouncer'' None # map (EvExec ''PAUSE'') outs @ fin"
proof -
  from Pause_conn_ok[OF assms, of steps] obtain xs where xs:
    "length xs \<le> steps" "None \<notin> set (butlast xs)" "xs = [] \<longrightarrow> steps = 0"
    "(xs \<noteq> [] \<and> last xs \<noteq> None) \<and> length xs = steps \<and>
       Pause steps w p h =
         (last xs, p, h @ EvConnection ''pgbouncer'' None # map (EvExec ''PAUSE'') xs)
     \<or> (xs = [] \<or> last xs = None) \<and>
       Pause steps w p h =
         (None, p\<lparr>paused := True\<rparr>,
          h @ EvConnection ''pgbouncer'' None # map (EvExec ''PAUSE'') xs @
            [EvLock, EvStore True, EvUnlock])"
    by blast
  from xs(4) show ?thesis
  proof
    assume "(xs \<noteq> [] \<and> last xs \<noteq> None) \<and> length xs = steps \<and>
       Pause steps w p h =
         (last xs, p, h @ EvConnection ''pgbouncer'' None # map (EvExec ''PAUSE'') xs)"
    then have "snd (snd (Pause steps w p h)) =
        h @ EvConnection ''pgbouncer'' None # map (EvExec ''PAUSE'') xs @ []"
      by simp
    with xs(3) show ?thesis
      by (intro exI[of _ xs] exI[of _ "[]"]) simp
  next
    assume "(xs = [] \<or> last xs = None) \<and>
       Pause steps w p h =
         (None, p\<lparr>paused := True\<rparr>,
          h @ EvConnection ''pgbouncer'' None # map (EvExec ''PAUSE'') xs @
            [EvLock, EvStore True, EvUnlock])"
    then have "snd (snd (Pause steps w p h)) =
        h @ EvConnection ''pgbouncer'' None # map (EvExec ''PAUSE'') xs @
          [EvLock, EvStore True, EvUnlock]"
      by simp
    with xs(3) show ?thesis
      by (intro exI[of _ xs] exI[of _ "[EvLock, EvStore True, EvUnlock]"]) simp
  qed
qed

lemma connections_tail: "set fin \<subseteq> {EvLock, EvStore True, EvUnlock} \<Longrightarrow> connections fin = []"
  by (induction fin) auto

lemma executions_tail: "set fin \<subseteq> {EvLock, EvStore True, EvUnlock} \<Longrightarrow> executions fin = []"
  by (induction fin) auto

lemma Resume_outcome:
  assumes "Resume w p h = (r, p', h')"
  shows "(r = None \<longrightarrow>
           p' = p\<lparr>paused := False\<rparr> \<and>
           (\<exists>pre. h' = h @ pre @ [EvExec ''RESUME'' None, EvLock, EvStore False, EvUnlock] \<and>
              (\<forall>b. EvStore b \<notin> set pre))) \<and>
         (r \<noteq> None \<longrightarrow> p' = p \<and> (\<exists>new. h' = h @ new \<and> (\<forall>b. EvStore b \<notin> set new)))"
proof (cases "Connection w h (pool p) ''pgbouncer''")
  case (Inl e)
  with assms have "r \<noteq> None" "p' = p" "h' = h @ [EvConnection ''pgbouncer'' (Some e)]"
    by (auto simp: Resume_eq)
  then show ?thesis by simp
next
  case (Inr db)
  show ?thesis
  proof (cases "Exec w (h @ [EvConnection ''pgbouncer'' None]) db ''RESUME''")
    case None
    with Inr assms have "r = None" "p' = p\<lparr>paused := False\<rparr>"
      "h' = h @ [EvConnection ''pgbouncer'' None] @
         [EvExec ''RESUME'' None, EvLock, EvStore False, EvUnlock]"
      by (auto simp: Resume_eq)
    moreover have "\<forall>b. EvStore b \<notin> set [EvConnection ''pgbouncer'' None]"
      by simp
    ultimately show ?thesis by blast
  next
    case (Some e)
    with Inr assms have "r \<noteq> None" "p' = p"
      "h' = h @ [EvConnection ''pgbouncer'' None, EvExec ''RESUME'' (Some e)]"
      by (auto simp: Resume_eq)
    then show ?thesis by simp
  qed
qed

lemma Pause_outcome:
  assumes "0 < steps" and "Pause steps w p h = (r, p', h')"
  shows "(r = None \<longrightarrow>
           p' = p\<lparr>paused := True\<rparr> \<and>
           (\<exists>pre. h' = h @ pre @ [EvExec ''PAUSE'' None, EvLock, EvStore True, EvUnlock] \<and>
              (\<forall>b. EvStore b \<notin> set pre))) \<and>
         (r \<noteq> None \<longrightarrow> p' = p \<and> (\<exists>new. h' = h @ new \<and> (\<forall>b. EvStore b \<notin> set new)))"
proof (cases "Connection w h (pool p) ''pgbouncer''")
  case (Inl e)
  from Pause_conn_fail[OF Inl, of steps] assms(2)
  have "r \<noteq> None" "p' = p" "h' = h @ [EvConnection ''pgbouncer'' (Some e)]"
    by simp_all
  then show ?thesis by simp
next
  case (Inr db)
  from Pause_conn_ok[OF Inr, of steps] obtain xs where xs:
    "length xs \<le> steps" "None \<notin> set (butlast xs)" "xs = [] \<longrightarrow> steps = 0"
    "(xs \<noteq> [] \<and> last xs \<noteq> None) \<and> length xs = steps \<and>
       Pause steps w p h =
         (last xs, p, h @ EvConnection ''pgbouncer'' None # map (EvExec ''PAUSE'') xs)
     \<or> (xs = [] \<or> last xs = None) \<and>
       Pause steps w p h =
         (None, p\<lparr>paused := True\<rparr>,
          h @ EvConnection ''pgbouncer'' None # map (EvExec ''PAUSE'') xs @
            [EvLock, EvStore True, EvUnlock])"
    by blast
  from xs(3) assms(1) have ne: "xs \<noteq> []" by auto
  from xs(4) show ?thesis
  proof
    assume a: "(xs \<noteq> [] \<and> last xs \<noteq> None) \<and> length xs = steps \<and>
       Pause steps w p h =
         (last xs, p, h @ EvConnection ''pgbouncer'' None # map (EvExec ''PAUSE'') xs)"
    with assms(2) have "r \<noteq> None" "p' = p"
      "h' = h @ (EvConnection ''pgbouncer'' None # map (EvExec ''PAUSE'') xs)"
      by auto
    moreover have "\<forall>b. EvStore b \<notin> set (EvConnection ''pgbouncer'' None # map (EvExec ''PAUSE'') xs)"
      by auto
    ultimately show ?thesis by blast
  next
    assume a: "(xs = [] \<or> last xs = None) \<and>
       Pause steps w p h =
         (None, p\<lparr>paused := True\<rparr>,
          h @ EvConnection ''pgbouncer'' None # map (EvExec ''PAUSE'') xs @
            [EvLock, EvStore True, EvUnlock])"
    with ne have l: "last xs = None" by simp
    with ne have "xs = butlast xs @ [None]"
      by (metis append_butlast_last_id)
    then have "map (EvExec ''PAUSE'') xs = map (EvExec ''PAUSE'') (butlast xs @ [None])"
      by simp
    then have m: "map (EvExec ''PAUSE'') xs =
        map (EvExec ''PAUSE'') (butlast xs) @ [EvExec ''PAUSE'' None]"
      by simp
    from a assms(2) have "r = None" "p' = p\<lparr>paused := True\<rparr>"
      "h' = h @ EvConnection ''pgbouncer'' None # map (EvExec ''PAUSE'') xs @
            [EvLock, EvStore True, EvUnlock]"
      by auto
    then have "r = None" "p' = p\<lparr>paused := True\<rparr>"
      "h' = h @ (EvConnection ''pgbouncer'' None # map (EvExec ''PAUSE'') (butlast xs)) @
            [EvExec ''PAUSE'' None, EvLock, EvStore True, EvUnlock]"
      by (simp_all add: m)
    moreover have "\<forall>b. EvStore b \<notin>
        set (EvConnection ''pgbouncer'' None # map (EvExec ''PAUSE'') (butlast xs))"
      by auto
    ultimately show ?thesis by blast
  qed
qed

lemma Pause_requests: "connections (drop (length h) (snd (snd (Pause steps w p h)))) = [''pgbouncer''] \<and>
    (\<forall>db. Connection w h (pool p) ''pgbouncer'' = Inr db \<and> 0 < steps \<longrightarrow>
      set (map fst (executions (drop (length h) (snd (snd (Pause steps w p h)))))) = {''PAUSE''})"
  proof (cases "Connection w h (pool p) ''pgbouncer''")
    case (Inl e)
    from Pause_conn_fail[OF Inl, of steps] Inl show ?thesis by simp
  next
    case (Inr db)
    from Pause_conn_ok_history[OF Inr, of steps] obtain xs fin where xs:
      "xs = [] \<longrightarrow> steps = 0" "set fin \<subseteq> {EvLock, EvStore True, EvUnlock}"
      "snd (snd (Pause steps w p h)) =
         h @ EvConnection ''pgbouncer'' None # map (EvExec ''PAUSE'') xs @ fin"
      by blast
    have a: "connections (drop (length h) (snd (snd (Pause steps w p h)))) = [''pgbouncer'']"
      by (simp add: xs(3) connections_append connections_map connections_tail[OF xs(2)])
    have e: "executions (drop (length h) (snd (snd (Pause steps w p h)))) = map (Pair ''PAUSE'') xs"
      by (simp add: xs(3) executions_append executions_map executions_tail[OF xs(2)])
    have "set (map fst (map (Pair ''PAUSE'') xs)) = {''PAUSE''}" if "xs \<noteq> []"
      using that by (cases xs) auto
    with xs(1) have "0 < steps \<longrightarrow> set (map fst (map (Pair ''PAUSE'') xs)) = {''PAUSE''}"
      by blast
    with a e show ?thesis
      by simp
  qed

lemma mu_events_append:
  "mu_events (xs @ ys) m = (case mu_events xs m of None \<Rightarrow> None | Some m' \<Rightarrow> mu_events ys m')"
  by (induction xs arbitrary: m) (simp_all split: option.splits)

lemma mu_event_network: "network e \<Longrightarrow> mu_event e m = Some m"
  by (cases e) simp_all

lemma mu_events_network: "\<forall>e\<in>set es. network e \<Longrightarrow> mu_events es m = Some m"
  by (induction es) (simp_all add: mu_event_network)

lemma Pause_history:
  "\<exists>net. (\<forall>e\<in>set net. network e) \<and>
     (snd (snd (Pause steps w p h)) = h @ net \<or>
      snd (snd (Pause steps w p h)) = h @ net @ [EvLock, EvStore True, EvUnlock])"
proof (cases "Connection w h (pool p) ''pgbouncer''")
  case (Inl e)
  from Pause_conn_fail[OF Inl, of steps]
  have "snd (snd (Pause steps w p h)) = h @ [EvConnection ''pgbouncer'' (Some e)]"
    by simp
  moreover have "\<forall>e\<in>set [EvConnection ''pgbouncer'' (Some e)]. network e"
    by simp
  ultimately show ?thesis by blast
next
  case (Inr db)
  from Pause_conn_ok[OF Inr, of steps] obtain xs where xs:
    "length xs \<le> steps" "None \<notin> set (butlast xs)" "xs = [] \<longrightarrow> steps = 0"
    "(xs \<noteq> [] \<and> last xs \<noteq> None) \<and> length xs = steps \<and>
       Pause steps w p h =
         (last xs, p, h @ EvConnection ''pgbouncer'' None # map (EvExec ''PAUSE'') xs)
     \<or> (xs = [] \<or> last xs = None) \<and>
       Pause steps w p h =
         (None, p\<lparr>paused := True\<rparr>,
          h @ EvConnection ''pgbouncer'' None # map (EvExec ''PAUSE'') xs @
            [EvLock, EvStore True, EvUnlock])"
    by blast
  let ?net = "EvConnection ''pgbouncer'' None # map (EvExec ''PAUSE'') xs"
  have n: "\<forall>e\<in>set ?net. network e"
    by auto
  from xs(4) have "snd (snd (Pause steps w p h)) = h @ ?net \<or>
      snd (snd (Pause steps w p h)) = h @ ?net @ [EvLock, EvStore True, EvUnlock]"
    by auto
  with n show ?thesis by blast
qed

lemma sample_paused: "paused sample = False"
  by (simp add: NewPgBouncerInstance_def)

lemma Pause_sample:
  "Pause steps w sample h =
     (case Connection w h (pool sample) ''pgbouncer'' of
        Inl err \<Rightarrow>
          (Some (Errorf ''while connecting to pgbouncer database locally'' err), sample,
           h @ [EvConnection ''pgbouncer'' (Some err)])
      | Inr db \<Rightarrow>
          (case OnError steps Pause_retriable (db_Exec w db ''PAUSE'') None
                  (h @ [EvConnection ''pgbouncer'' None]) of
             (Some err, h2) \<Rightarrow> (Some err, sample, h2)
           | (None, h2) \<Rightarrow>
               (None, sample\<lparr>paused := True\<rparr>, h2 @ [EvLock, EvStore True, EvUnlock])))"
  by (simp add: Pause_def pool_Connection_def split: sum.splits)

lemma OnError_numeral:
  "OnError (numeral k) retriable fn lastErr h =
     (case fn h of
        (None, h') \<Rightarrow> (None, h')
      | (Some err, h') \<Rightarrow>
          if retriable err then OnError (pred_numeral k) retriable fn (Some err) h'
          else (Some err, h'))"
  by (simp add: numeral_eq_Suc)

lemmas run_script =
  scripted_Connection scripted_Exec reply_def db_Exec_eq Pause_retriable_True Resume_eq
  OnError_numeral

section \<open>The claims\<close>

text \<open>
  C1. From any state, after a \<open>Pause\<close> that returned no error, and after any further calls
  among which no \<open>Resume\<close> returned no error, \<open>Paused\<close> returns true, and so did every
  \<open>Paused\<close> among those calls. After a \<open>Resume\<close> that returned no error, and further calls
  among which no \<open>Pause\<close> returned no error, \<open>Paused\<close> returns false.
\<close>

theorem Paused_follows_last_success:
  "(Pause steps w p h = (None, p1, h1) \<and> run steps w cs p1 h1 = (rs, p2, h2) \<and>
      (OpResume, RetError None) \<notin> set (zip cs rs) \<longrightarrow>
    fst (Paused p2 h2) = True \<and> (OpPaused, RetBool False) \<notin> set (zip cs rs)) \<and>
   (Resume w p h = (None, p1, h1) \<and> run steps w cs p1 h1 = (rs, p2, h2) \<and>
      (OpPause, RetError None) \<notin> set (zip cs rs) \<longrightarrow>
    fst (Paused p2 h2) = False \<and> (OpPaused, RetBool True) \<notin> set (zip cs rs))"
proof (intro conjI impI)
  assume a: "Pause steps w p h = (None, p1, h1) \<and> run steps w cs p1 h1 = (rs, p2, h2) \<and>
      (OpResume, RetError None) \<notin> set (zip cs rs)"
  then have "paused p1 = True"
    by (auto dest: Pause_result)
  from run_keeps_flag[OF _ this] a
  show "fst (Paused p2 h2) = True" "(OpPaused, RetBool False) \<notin> set (zip cs rs)"
    by (auto simp: Paused_def)
next
  assume a: "Resume w p h = (None, p1, h1) \<and> run steps w cs p1 h1 = (rs, p2, h2) \<and>
      (OpPause, RetError None) \<notin> set (zip cs rs)"
  then have "paused p1 = False"
    by (auto dest: Resume_result)
  from run_keeps_flag[OF _ this] a
  show "fst (Paused p2 h2) = False" "(OpPaused, RetBool True) \<notin> set (zip cs rs)"
    by (auto simp: Paused_def)
qed

theorem Paused_follows_last_success_witness:
  "Pause 4 (scripted [None, Some refused, None] [Some not_ready, None, Some closed]) sample [] =
     (None, sample\<lparr>paused := True\<rparr>,
      [EvConnection ''pgbouncer'' None, EvExec ''PAUSE'' (Some not_ready),
       EvExec ''PAUSE'' None, EvLock, EvStore True, EvUnlock]) \<and>
   run 4 (scripted [None, Some refused, None] [Some not_ready, None, Some closed])
     [OpPaused, OpPause, OpResume] (sample\<lparr>paused := True\<rparr>)
     [EvConnection ''pgbouncer'' None, EvExec ''PAUSE'' (Some not_ready),
      EvExec ''PAUSE'' None, EvLock, EvStore True, EvUnlock] =
     ([RetBool True,
       RetError (Some (Errorf ''while connecting to pgbouncer database locally'' refused)),
       RetError (Some (Errorf ''while resuming instance'' closed))],
      sample\<lparr>paused := True\<rparr>,
      [EvConnection ''pgbouncer'' None, EvExec ''PAUSE'' (Some not_ready),
       EvExec ''PAUSE'' None, EvLock, EvStore True, EvUnlock, EvRLock, EvRUnlock,
       EvConnection ''pgbouncer'' (Some refused),
       EvConnection ''pgbouncer'' None, EvExec ''RESUME'' (Some closed)]) \<and>
   fst (Paused (sample\<lparr>paused := True\<rparr>)
     [EvConnection ''pgbouncer'' None, EvExec ''PAUSE'' (Some not_ready),
      EvExec ''PAUSE'' None, EvLock, EvStore True, EvUnlock, EvRLock, EvRUnlock,
      EvConnection ''pgbouncer'' (Some refused),
      EvConnection ''pgbouncer'' None, EvExec ''RESUME'' (Some closed)]) = True \<and>
   Resume (scripted [] []) (sample\<lparr>paused := True\<rparr>) [] =
     (None, sample\<lparr>paused := False\<rparr>,
      [EvConnection ''pgbouncer'' None, EvExec ''RESUME'' None,
       EvLock, EvStore False, EvUnlock]) \<and>
   run 4 (scripted [] []) [OpPaused, OpResume] (sample\<lparr>paused := False\<rparr>)
     [EvConnection ''pgbouncer'' None, EvExec ''RESUME'' None,
      EvLock, EvStore False, EvUnlock] =
     ([RetBool False, RetError None], sample\<lparr>paused := False\<rparr>,
      [EvConnection ''pgbouncer'' None, EvExec ''RESUME'' None, EvLock, EvStore False, EvUnlock,
       EvRLock, EvRUnlock,
       EvConnection ''pgbouncer'' None, EvExec ''RESUME'' None,
       EvLock, EvStore False, EvUnlock]) \<and>
   fst (Paused (sample\<lparr>paused := False\<rparr>)
     [EvConnection ''pgbouncer'' None, EvExec ''RESUME'' None, EvLock, EvStore False, EvUnlock,
      EvRLock, EvRUnlock,
      EvConnection ''pgbouncer'' None, EvExec ''RESUME'' None,
      EvLock, EvStore False, EvUnlock]) = False"
proof -
  let ?w = "scripted [None, Some refused, None] [Some not_ready, None, Some closed]"
  let ?h1 = "[EvConnection ''pgbouncer'' None, EvExec ''PAUSE'' (Some not_ready),
       EvExec ''PAUSE'' None, EvLock, EvStore True, EvUnlock]"
  let ?cs = "[OpPaused, OpPause, OpResume]"
  let ?rs = "[RetBool True,
       RetError (Some (Errorf ''while connecting to pgbouncer database locally'' refused)),
       RetError (Some (Errorf ''while resuming instance'' closed))]"
  let ?h2 = "[EvConnection ''pgbouncer'' None, EvExec ''PAUSE'' (Some not_ready),
       EvExec ''PAUSE'' None, EvLock, EvStore True, EvUnlock, EvRLock, EvRUnlock,
       EvConnection ''pgbouncer'' (Some refused),
       EvConnection ''pgbouncer'' None, EvExec ''RESUME'' (Some closed)]"
  let ?k1 = "[EvConnection ''pgbouncer'' None, EvExec ''RESUME'' None,
       EvLock, EvStore False, EvUnlock]"
  let ?k2 = "[EvConnection ''pgbouncer'' None, EvExec ''RESUME'' None, EvLock, EvStore False, EvUnlock,
       EvRLock, EvRUnlock,
       EvConnection ''pgbouncer'' None, EvExec ''RESUME'' None,
       EvLock, EvStore False, EvUnlock]"
  have p: "Pause 4 ?w sample [] = (None, sample\<lparr>paused := True\<rparr>, ?h1)"
    by (simp add: Pause_sample run_script)
  have r: "run 4 ?w ?cs (sample\<lparr>paused := True\<rparr>) ?h1 = (?rs, sample\<lparr>paused := True\<rparr>, ?h2)"
    by (simp add: Paused_def Pause_def pool_Connection_def run_script)
  have n: "(OpResume, RetError None) \<notin> set (zip ?cs ?rs)"
    by simp
  have p': "Resume (scripted [] []) (sample\<lparr>paused := True\<rparr>) [] =
      (None, sample\<lparr>paused := False\<rparr>, ?k1)"
    by (simp add: run_script)
  have r': "run 4 (scripted [] []) [OpPaused, OpResume] (sample\<lparr>paused := False\<rparr>) ?k1 =
      ([RetBool False, RetError None], sample\<lparr>paused := False\<rparr>, ?k2)"
    by (simp add: Paused_def run_script)
  have n': "(OpPause, RetError None) \<notin> set (zip [OpPaused, OpResume] [RetBool False, RetError None])"
    by simp
  from Paused_follows_last_success[of 4 ?w sample "[]" "sample\<lparr>paused := True\<rparr>" ?h1 ?cs ?rs
      "sample\<lparr>paused := True\<rparr>" ?h2] p r n
  have a: "fst (Paused (sample\<lparr>paused := True\<rparr>) ?h2) = True"
    by blast
  from Paused_follows_last_success[of 4 "scripted [] []" "sample\<lparr>paused := True\<rparr>" "[]"
      "sample\<lparr>paused := False\<rparr>" ?k1 "[OpPaused, OpResume]" "[RetBool False, RetError None]"
      "sample\<lparr>paused := False\<rparr>" ?k2] p' r' n'
  have b: "fst (Paused (sample\<lparr>paused := False\<rparr>) ?k2) = False"
    by blast
  from p r a p' r' b show ?thesis
    by blast
qed

text \<open>
  C2. With a positive budget, for each of the three operations: when the call returns no
  error, the events it added end with a successful execution of the command, directly
  followed by the locked assignment to the flag, and this is the only assignment; in every
  other case (a failed \<open>Pause\<close> or \<open>Resume\<close>, or \<open>Paused\<close>) the instance is returned as it
  was, no assignment is among the added events, and \<open>Paused\<close> answers as before the call.
\<close>

theorem flag_changes_only_after_success:
  assumes "0 < steps" and "call steps w c p h = (r, p', h')"
  shows "(r = RetError None \<longrightarrow>
           p' = p\<lparr>paused := (c = OpPause)\<rparr> \<and>
           (\<exists>pre q. h' = h @ pre @ [EvExec q None, EvLock, EvStore (c = OpPause), EvUnlock] \<and>
              (\<forall>b. EvStore b \<notin> set pre))) \<and>
         (r \<noteq> RetError None \<longrightarrow>
           p' = p \<and> fst (Paused p' h') = fst (Paused p h) \<and>
           (\<exists>new. h' = h @ new \<and> (\<forall>b. EvStore b \<notin> set new)))"
proof (cases c)
  case OpPaused
  with assms(2) have "r = RetBool (paused p)" "p' = p" "h' = h @ [EvRLock, EvRUnlock]"
    by (auto simp: Paused_def)
  then show ?thesis by (simp add: Paused_def)
next
  case OpPause
  with assms(2) obtain e where r: "r = RetError e" and P: "Pause steps w p h = (e, p', h')"
    by (auto split: prod.splits)
  from Pause_outcome[OF assms(1) P] r OpPause show ?thesis
    by (auto simp: Paused_def)
next
  case OpResume
  with assms(2) obtain e where r: "r = RetError e" and R: "Resume w p h = (e, p', h')"
    by (auto split: prod.splits)
  from Resume_outcome[OF R] r OpResume show ?thesis
    by (auto simp: Paused_def)
qed

theorem flag_changes_only_after_success_witness:
  "(0::nat) < 4 \<and>
   call 4 (scripted [] [Some not_ready, None]) OpPause sample [] =
     (RetError None, sample\<lparr>paused := True\<rparr>,
      [EvConnection ''pgbouncer'' None, EvExec ''PAUSE'' (Some not_ready),
       EvExec ''PAUSE'' None, EvLock, EvStore True, EvUnlock]) \<and>
   sample\<lparr>paused := True\<rparr> = sample\<lparr>paused := (OpPause = OpPause)\<rparr> \<and>
   (\<exists>pre q.
      [EvConnection ''pgbouncer'' None, EvExec ''PAUSE'' (Some not_ready),
       EvExec ''PAUSE'' None, EvLock, EvStore True, EvUnlock] =
      [] @ pre @ [EvExec q None, EvLock, EvStore (OpPause = OpPause), EvUnlock] \<and>
      (\<forall>b. EvStore b \<notin> set pre)) \<and>
   call 4 (scripted [] [Some closed]) OpResume (sample\<lparr>paused := True\<rparr>) [] =
     (RetError (Some (Errorf ''while resuming instance'' closed)), sample\<lparr>paused := True\<rparr>,
      [EvConnection ''pgbouncer'' None, EvExec ''RESUME'' (Some closed)]) \<and>
   RetError (Some (Errorf ''while resuming instance'' closed)) \<noteq> RetError None \<and>
   fst (Paused (sample\<lparr>paused := True\<rparr>)
          [EvConnection ''pgbouncer'' None, EvExec ''RESUME'' (Some closed)]) =
     fst (Paused (sample\<lparr>paused := True\<rparr>) []) \<and>
   (\<exists>new. [EvConnection ''pgbouncer'' None, EvExec ''RESUME'' (Some closed)] = [] @ new \<and>
      (\<forall>b. EvStore b \<notin> set new))"
proof -
  let ?h1 = "[EvConnection ''pgbouncer'' None, EvExec ''PAUSE'' (Some not_ready),
       EvExec ''PAUSE'' None, EvLock, EvStore True, EvUnlock]"
  let ?h2 = "[EvConnection ''pgbouncer'' None, EvExec ''RESUME'' (Some closed)]"
  have n: "(0::nat) < 4" by simp
  have c1: "call 4 (scripted [] [Some not_ready, None]) OpPause sample [] =
      (RetError None, sample\<lparr>paused := True\<rparr>, ?h1)"
    by (simp add: Pause_sample run_script)
  have c2: "call 4 (scripted [] [Some closed]) OpResume (sample\<lparr>paused := True\<rparr>) [] =
      (RetError (Some (Errorf ''while resuming instance'' closed)), sample\<lparr>paused := True\<rparr>, ?h2)"
    by (simp add: run_script)
  from flag_changes_only_after_success[OF n c1] flag_changes_only_after_success[OF n c2] c1 c2
  show ?thesis
    by simp
qed

text \<open>
  C3. Not every error comes back wrapped. With a connection and four failing executions,
  \<open>Pause\<close> returns the error of the last execution as it is, with no context around it:
  its message is the message of the failed command. \<open>Resume\<close>, on the same failure,
  returns it wrapped by \<^verbatim>\<open>while resuming instance\<close>.
\<close>

theorem Pause_exec_error_returned_bare:
  "fst (Pause 4 (scripted [] [Some closed, Some closed, Some closed, Some closed]) sample []) =
     Some closed \<and>
   map_option Error
     (fst (Pause 4 (scripted [] [Some closed, Some closed, Some closed, Some closed]) sample [])) =
     Some ''server closed the connection'' \<and>
   fst (Resume (scripted [] [Some closed]) sample []) =
     Some (Errorf ''while resuming instance'' closed) \<and>
   map_option Error (fst (Resume (scripted [] [Some closed]) sample [])) =
     Some ''while resuming instance: server closed the connection''"
  by (simp add: Pause_sample run_script)

text \<open>
  C4. Whatever the state of the instance, when the connection pool fails to give a
  connection, \<open>Pause\<close> and \<open>Resume\<close> both return that error wrapped with the context of
  the connection phase, the instance is returned as it was, and the only event of the call
  is the one failed connection request: no command is executed and nothing is retried.
\<close>

theorem connection_failure_returns_at_once:
  assumes "Connection w h (pool p) ''pgbouncer'' = Inl err"
  shows "Pause steps w p h =
           (Some (Errorf ''while connecting to pgbouncer database locally'' err), p,
            h @ [EvConnection ''pgbouncer'' (Some err)]) \<and>
         Resume w p h =
           (Some (Errorf ''while connecting to pgbouncer database locally'' err), p,
            h @ [EvConnection ''pgbouncer'' (Some err)])"
  using assms by (simp add: Pause_conn_fail Resume_eq)

theorem connection_failure_returns_at_once_witness:
  "Connection (scripted [Some refused] []) [] (pool (sample\<lparr>paused := True\<rparr>)) ''pgbouncer'' =
     Inl refused \<and>
   Pause 4 (scripted [Some refused] []) (sample\<lparr>paused := True\<rparr>) [] =
     (Some (Errorf ''while connecting to pgbouncer database locally'' refused),
      sample\<lparr>paused := True\<rparr>, [EvConnection ''pgbouncer'' (Some refused)]) \<and>
   Resume (scripted [Some refused] []) (sample\<lparr>paused := True\<rparr>) [] =
     (Some (Errorf ''while connecting to pgbouncer database locally'' refused),
      sample\<lparr>paused := True\<rparr>, [EvConnection ''pgbouncer'' (Some refused)])"
proof -
  have c: "Connection (scripted [Some refused] []) [] (pool (sample\<lparr>paused := True\<rparr>))
      ''pgbouncer'' = Inl refused"
    by (simp add: run_script)
  from connection_failure_returns_at_once[OF c, of 4] c show ?thesis
    by simp
qed



text \<open>
  C6. \<open>Resume\<close> never executes the command more than once in a call. Once the connection
  is there it executes \<^verbatim>\<open>RESUME\<close> exactly once, and when that one execution fails the
  call returns the error wrapped with the context of the resume phase, with the instance
  as it was, whatever its cached flag.
\<close>

theorem Resume_never_retries:
  "length (executions (drop (length h) (snd (snd (Resume w p h))))) \<le> 1 \<and>
   (\<forall>db. Connection w h (pool p) ''pgbouncer'' = Inr db \<longrightarrow>
      executions (drop (length h) (snd (snd (Resume w p h)))) =
        [(''RESUME'', Exec w (h @ [EvConnection ''pgbouncer'' None]) db ''RESUME'')] \<and>
      (\<forall>err. Exec w (h @ [EvConnection ''pgbouncer'' None]) db ''RESUME'' = Some err \<longrightarrow>
         Resume w p h =
           (Some (Errorf ''while resuming instance'' err), p,
            h @ [EvConnection ''pgbouncer'' None, EvExec ''RESUME'' (Some err)])))"
  by (simp add: Resume_eq split: sum.splits option.splits)

theorem Resume_never_retries_witness:
  "Connection (scripted [] [Some closed]) [] (pool (sample\<lparr>paused := True\<rparr>)) ''pgbouncer'' =
     Inr (DB 0) \<and>
   Exec (scripted [] [Some closed]) ([] @ [EvConnection ''pgbouncer'' None]) (DB 0) ''RESUME'' =
     Some closed \<and>
   length (executions (drop (length ([]::event list))
     (snd (snd (Resume (scripted [] [Some closed]) (sample\<lparr>paused := True\<rparr>) []))))) \<le> 1 \<and>
   executions (drop (length ([]::event list))
     (snd (snd (Resume (scripted [] [Some closed]) (sample\<lparr>paused := True\<rparr>) [])))) =
     [(''RESUME'', Some closed)] \<and>
   Resume (scripted [] [Some closed]) (sample\<lparr>paused := True\<rparr>) [] =
     (Some (Errorf ''while resuming instance'' closed), sample\<lparr>paused := True\<rparr>,
      [EvConnection ''pgbouncer'' None, EvExec ''RESUME'' (Some closed)])"
proof -
  let ?w = "scripted [] [Some closed]"
  let ?p = "sample\<lparr>paused := True\<rparr>"
  have c: "Connection ?w [] (pool ?p) ''pgbouncer'' = Inr (DB 0)"
    by (simp add: run_script)
  have e: "Exec ?w ([] @ [EvConnection ''pgbouncer'' None]) (DB 0) ''RESUME'' = Some closed"
    by (simp add: run_script)
  from Resume_never_retries[of "[]" ?w ?p] c e show ?thesis
    by simp
qed

text \<open>
  C7. The retry predicate of \<open>Pause\<close> answers true for every error: it tests for the
  not-exist error, and both branches of the test return true. So the retry loop run with
  it is the loop run with the predicate that accepts everything: every failure of the
  command is retried.
\<close>

theorem Pause_retriable_every_error:
  "Pause_retriable err = True \<and>
   OnError steps Pause_retriable fn lastErr h = OnError steps (\<lambda>err. True) fn lastErr h"
proof -
  have eq: "Pause_retriable = (\<lambda>err. True)"
    by (rule ext) (simp add: Pause_retriable_def)
  show ?thesis
    unfolding eq by simp
qed

text \<open>
  C8. A new instance has its flag false, so \<open>Paused\<close> returns false on it, and keeps
  returning false after any calls among which no \<open>Pause\<close> returned no error.
\<close>

theorem fresh_instance_not_paused:
  "paused (NewPgBouncerInstance dir port user) = False \<and>
   fst (Paused (NewPgBouncerInstance dir port user) h) = False \<and>
   (run steps w cs (NewPgBouncerInstance dir port user) h = (rs, p2, h2) \<and>
      (OpPause, RetError None) \<notin> set (zip cs rs) \<longrightarrow>
    fst (Paused p2 h2) = False \<and> (OpPaused, RetBool True) \<notin> set (zip cs rs))"
proof -
  have f: "paused (NewPgBouncerInstance dir port user) = False"
    by (simp add: NewPgBouncerInstance_def)
  from run_keeps_flag[OF _ f] f show ?thesis
    by (auto simp: Paused_def)
qed

theorem fresh_instance_not_paused_witness:
  "paused sample = False \<and>
   fst (Paused sample []) = False \<and>
   run 4 (scripted [Some refused] [Some closed]) [OpPaused, OpPause, OpResume] sample [] =
     ([RetBool False,
       RetError (Some (Errorf ''while connecting to pgbouncer database locally'' refused)),
       RetError (Some (Errorf ''while resuming instance'' closed))],
      sample,
      [EvRLock, EvRUnlock, EvConnection ''pgbouncer'' (Some refused),
       EvConnection ''pgbouncer'' None, EvExec ''RESUME'' (Some closed)]) \<and>
   fst (Paused sample
     [EvRLock, EvRUnlock, EvConnection ''pgbouncer'' (Some refused),
      EvConnection ''pgbouncer'' None, EvExec ''RESUME'' (Some closed)]) = False"
proof -
  let ?w = "scripted [Some refused] [Some closed]"
  let ?cs = "[OpPaused, OpPause, OpResume]"
  let ?rs = "[RetBool False,
       RetError (Some (Errorf ''while connecting to pgbouncer database locally'' refused)),
       RetError (Some (Errorf ''while resuming instance'' closed))]"
  let ?h2 = "[EvRLock, EvRUnlock, EvConnection ''pgbouncer'' (Some refused),
       EvConnection ''pgbouncer'' None, EvExec ''RESUME'' (Some closed)]"
  have r: "run 4 ?w ?cs sample [] = (?rs, sample, ?h2)"
    by (simp add: Paused_def Pause_sample sample_paused run_script)
  have n: "(OpPause, RetError None) \<notin> set (zip ?cs ?rs)"
    by simp
  from fresh_instance_not_paused[of "''/controller/run''" 6432 "''pgbouncer''" "[]" 4 ?w ?cs ?rs
      sample ?h2] r n
  show ?thesis
    by blast
qed

text \<open>
  C9. \<open>Paused\<close> takes and releases the read lock and does nothing else: it makes no request
  to the proxy. The events of a call of \<open>Pause\<close> are its requests to the proxy, followed,
  when it succeeds, by the locked assignment to the flag. At any point among those
  requests, with no writer holding the guard, the guard is as it was when the call began;
  the read lock and unlock of a \<open>Paused\<close> issued there go through and leave it so, and
  that \<open>Paused\<close> returns the flag of before the call. A read lock has to wait only between
  the lock and the unlock around the assignment.
\<close>

theorem network_phase_outside_lock:
  assumes "Pause steps w p h = (r, p', h')"
    and "net = takeWhile network (drop (length h) h')"
  shows "snd (Paused q k) = k @ [EvRLock, EvRUnlock] \<and>
    (h' = h @ net \<or> h' = h @ net @ [EvLock, EvStore True, EvUnlock]) \<and>
    (\<forall>pre post m. net = pre @ post \<and> \<not> writer m \<longrightarrow>
       mu_events pre m = Some m \<and>
       mu_events (drop (length h) (snd (Paused p (h @ pre)))) m = Some m \<and>
       fst (Paused p (h @ pre)) = paused p) \<and>
    mu_events (net @ [EvLock, EvRLock]) unlocked = None \<and>
    mu_events (net @ [EvLock, EvStore True, EvRLock]) unlocked = None \<and>
    mu_events (net @ [EvLock, EvStore True, EvUnlock, EvRLock, EvRUnlock]) unlocked =
      Some unlocked"
proof -
  from Pause_history[of steps w p h] assms(1) obtain net0 where net0:
    "\<forall>e\<in>set net0. network e"
    "h' = h @ net0 \<or> h' = h @ net0 @ [EvLock, EvStore True, EvUnlock]"
    by auto
  from net0(2) have "takeWhile network (drop (length h) h') = net0"
  proof
    assume "h' = h @ net0"
    with net0(1) show ?thesis
      by simp
  next
    assume "h' = h @ net0 @ [EvLock, EvStore True, EvUnlock]"
    with net0(1) show ?thesis
      by simp
  qed
  with assms(2) have eq: "net0 = net"
    by simp
  note net = net0[unfolded eq]
  have pre: "mu_events pre m = Some m \<and>
         mu_events (drop (length h) (snd (Paused p (h @ pre)))) m = Some m \<and>
         fst (Paused p (h @ pre)) = paused p"
    if "net = pre @ post" "\<not> writer m" for pre post m
  proof -
    from that(1) net(1) have "\<forall>e\<in>set pre. network e"
      by simp
    then have a: "mu_events pre m = Some m"
      by (rule mu_events_network)
    have "drop (length h) (snd (Paused p (h @ pre))) = pre @ [EvRLock, EvRUnlock]"
      by (simp add: Paused_def)
    with a that(2) show ?thesis
      by (simp add: mu_events_append Paused_def)
  qed
  have n: "mu_events net unlocked = Some unlocked"
    using net(1) by (rule mu_events_network)
  have c: "mu_events (net @ [EvLock, EvRLock]) unlocked = None"
    "mu_events (net @ [EvLock, EvStore True, EvRLock]) unlocked = None"
    "mu_events (net @ [EvLock, EvStore True, EvUnlock, EvRLock, EvRUnlock]) unlocked =
        Some unlocked"
    by (simp_all add: mu_events_append n) (simp_all add: unlocked_def)
  have "snd (Paused q k) = k @ [EvRLock, EvRUnlock]"
    by (simp add: Paused_def)
  with net(2) pre c show ?thesis
    by blast
qed

theorem network_phase_outside_lock_witness:
  "Pause 4 (scripted [] [Some not_ready, None]) sample [] =
     (None, sample\<lparr>paused := True\<rparr>,
      [EvConnection ''pgbouncer'' None, EvExec ''PAUSE'' (Some not_ready),
       EvExec ''PAUSE'' None, EvLock, EvStore True, EvUnlock]) \<and>
   [EvConnection ''pgbouncer'' None, EvExec ''PAUSE'' (Some not_ready), EvExec ''PAUSE'' None] =
     takeWhile network (drop (length ([]::event list))
       [EvConnection ''pgbouncer'' None, EvExec ''PAUSE'' (Some not_ready),
        EvExec ''PAUSE'' None, EvLock, EvStore True, EvUnlock]) \<and>
   \<not> writer unlocked \<and>
   snd (Paused sample []) = [] @ [EvRLock, EvRUnlock] \<and>
   mu_events [EvConnection ''pgbouncer'' None, EvExec ''PAUSE'' (Some not_ready)] unlocked =
     Some unlocked \<and>
   mu_events (drop (length ([]::event list)) (snd (Paused sample
     ([] @ [EvConnection ''pgbouncer'' None, EvExec ''PAUSE'' (Some not_ready)])))) unlocked =
     Some unlocked \<and>
   fst (Paused sample ([] @ [EvConnection ''pgbouncer'' None, EvExec ''PAUSE'' (Some not_ready)])) =
     paused sample \<and>
   mu_events ([EvConnection ''pgbouncer'' None, EvExec ''PAUSE'' (Some not_ready),
     EvExec ''PAUSE'' None] @ [EvLock, EvStore True, EvRLock]) unlocked = None"
proof -
  let ?w = "scripted [] [Some not_ready, None]"
  let ?pre = "[EvConnection ''pgbouncer'' None, EvExec ''PAUSE'' (Some not_ready)]"
  let ?net = "?pre @ [EvExec ''PAUSE'' None]"
  let ?h' = "?net @ [EvLock, EvStore True, EvUnlock]"
  have p: "Pause 4 ?w sample [] = (None, sample\<lparr>paused := True\<rparr>, ?h')"
    by (simp add: Pause_sample run_script)
  have n: "?net = takeWhile network (drop (length ([]::event list)) ?h')"
    by simp
  have u: "\<not> writer unlocked"
    by (simp add: unlocked_def)
  have s: "?net = ?pre @ [EvExec ''PAUSE'' None]"
    by simp
  from network_phase_outside_lock[OF p n, of sample "[]"] u s
  have "snd (Paused sample []) = [] @ [EvRLock, EvRUnlock]"
    "mu_events ?pre unlocked = Some unlocked"
    "mu_events (drop (length ([]::event list)) (snd (Paused sample ([] @ ?pre)))) unlocked =
       Some unlocked"
    "fst (Paused sample ([] @ ?pre)) = paused sample"
    "mu_events (?net @ [EvLock, EvStore True, EvRLock]) unlocked = None"
    by blast+
  with p n u show ?thesis
    by simp
qed

text \<open>
  C10. The result and the events of \<open>Pause\<close> and of \<open>Resume\<close> do not depend on the cached
  flag. Every call requests one connection, to the database \<^verbatim>\<open>pgbouncer\<close>. Once connected,
  \<open>Pause\<close> (with a positive budget) executes \<^verbatim>\<open>PAUSE\<close> and nothing else, and \<open>Resume\<close>
  executes \<^verbatim>\<open>RESUME\<close>, also when the flag already has the value the call would set.
\<close>

theorem control_command_regardless_of_cache:
  "fst (Pause steps w (p\<lparr>paused := b\<rparr>) h) = fst (Pause steps w p h) \<and>
   snd (snd (Pause steps w (p\<lparr>paused := b\<rparr>) h)) = snd (snd (Pause steps w p h)) \<and>
   fst (Resume w (p\<lparr>paused := b\<rparr>) h) = fst (Resume w p h) \<and>
   snd (snd (Resume w (p\<lparr>paused := b\<rparr>) h)) = snd (snd (Resume w p h)) \<and>
   connections (drop (length h) (snd (snd (Pause steps w p h)))) = [''pgbouncer''] \<and>
   connections (drop (length h) (snd (snd (Resume w p h)))) = [''pgbouncer''] \<and>
   (\<forall>db. Connection w h (pool p) ''pgbouncer'' = Inr db \<and> 0 < steps \<longrightarrow>
      set (map fst (executions (drop (length h) (snd (snd (Pause steps w p h)))))) = {''PAUSE''}) \<and>
   (\<forall>db. Connection w h (pool p) ''pgbouncer'' = Inr db \<longrightarrow>
      map fst (executions (drop (length h) (snd (snd (Resume w p h))))) = [''RESUME''])"
proof -
  have 1: "fst (Pause steps w (p\<lparr>paused := b\<rparr>) h) = fst (Pause steps w p h)"
    "snd (snd (Pause steps w (p\<lparr>paused := b\<rparr>) h)) = snd (snd (Pause steps w p h))"
    by (simp_all add: Pause_def split: prod.splits sum.splits option.splits)
  have 2: "fst (Resume w (p\<lparr>paused := b\<rparr>) h) = fst (Resume w p h)"
    "snd (snd (Resume w (p\<lparr>paused := b\<rparr>) h)) = snd (snd (Resume w p h))"
    by (simp_all add: Resume_eq split: sum.splits option.splits)
  have 3: "connections (drop (length h) (snd (snd (Resume w p h)))) = [''pgbouncer'']"
    "\<forall>db. Connection w h (pool p) ''pgbouncer'' = Inr db \<longrightarrow>
      map fst (executions (drop (length h) (snd (snd (Resume w p h))))) = [''RESUME'']"
    by (simp_all add: Resume_eq split: sum.splits option.splits)
  note 4 = Pause_requests[of h steps w p]
  from 1 2 3 4 show ?thesis by blast
qed

theorem control_command_regardless_of_cache_witness:
  "(0::nat) < 4 \<and>
   Connection (scripted [] []) [] (pool (sample\<lparr>paused := True\<rparr>)) ''pgbouncer'' = Inr (DB 0) \<and>
   Pause 4 (scripted [] []) (sample\<lparr>paused := True\<rparr>) [] =
     (None, sample\<lparr>paused := True\<rparr>,
      [EvConnection ''pgbouncer'' None, EvExec ''PAUSE'' None, EvLock, EvStore True, EvUnlock]) \<and>
   Resume (scripted [] []) sample [] =
     (None, sample\<lparr>paused := False\<rparr>,
      [EvConnection ''pgbouncer'' None, EvExec ''RESUME'' None, EvLock, EvStore False, EvUnlock]) \<and>
   fst (Pause 4 (scripted [] []) (sample\<lparr>paused := True\<rparr>) []) =
     fst (Pause 4 (scripted [] []) sample []) \<and>
   snd (snd (Pause 4 (scripted [] []) (sample\<lparr>paused := True\<rparr>) [])) =
     snd (snd (Pause 4 (scripted [] []) sample [])) \<and>
   fst (Resume (scripted [] []) (sample\<lparr>paused := True\<rparr>) []) =
     fst (Resume (scripted [] []) sample []) \<and>
   snd (snd (Resume (scripted [] []) (sample\<lparr>paused := True\<rparr>) [])) =
     snd (snd (Resume (scripted [] []) sample [])) \<and>
   connections (drop (length ([]::event list)) (snd (snd (Pause 4 (scripted [] []) sample [])))) =
     [''pgbouncer''] \<and>
   connections (drop (length ([]::event list)) (snd (snd (Resume (scripted [] []) sample [])))) =
     [''pgbouncer''] \<and>
   set (map fst (executions (drop (length ([]::event list))
     (snd (snd (Pause 4 (scripted [] []) sample [])))))) = {''PAUSE''} \<and>
   map fst (executions (drop (length ([]::event list))
     (snd (snd (Resume (scripted [] []) sample []))))) = [''RESUME'']"
proof -
  have n: "(0::nat) < 4" by simp
  have c: "Connection (scripted [] []) [] (pool sample) ''pgbouncer'' = Inr (DB 0)"
    by (simp add: run_script)
  have c': "Connection (scripted [] []) [] (pool (sample\<lparr>paused := True\<rparr>)) ''pgbouncer'' = Inr (DB 0)"
    by (simp add: run_script)
  have p: "Pause 4 (scripted [] []) (sample\<lparr>paused := True\<rparr>) [] =
     (None, sample\<lparr>paused := True\<rparr>,
      [EvConnection ''pgbouncer'' None, EvExec ''PAUSE'' None, EvLock, EvStore True, EvUnlock])"
    by (simp add: Pause_def pool_Connection_def run_script)
  have r: "Resume (scripted [] []) sample [] =
     (None, sample\<lparr>paused := False\<rparr>,
      [EvConnection ''pgbouncer'' None, EvExec ''RESUME'' None, EvLock, EvStore False, EvUnlock])"
    by (simp add: run_script)
  from control_command_regardless_of_cache[where steps = 4 and w = "scripted [] []" and p = sample
      and b = True and h = "[]"] n c c' p r
  show ?thesis
    by blast
qed

end
